theory Spec2Isabelle
  imports Complex_Main "HOL-Library.Word" "HOL-Library.Log_Nat"
begin

unbundle bit_operations_syntax

section \<open>The host's 32-bit operators\<close>

text \<open>
  The numbers of \<^verbatim>\<open>src/src/utils.js\<close> that the wide-integer layer handles are
  integer-valued and far below \<open>2^53\<close> in magnitude, so \<open>+\<close> and \<open>*\<close> on them are
  exact and a number is modelled as an \<open>int\<close>. The bitwise operators of the host first
  coerce each operand to 32 bits (its value modulo \<open>2^32\<close>), take the shift count modulo
  32, and return a signed 32-bit result; only \<open>>>>\<close> returns an unsigned one.
\<close>

text \<open>\<open>ToUint32\<close>: the unsigned reading of the 32-bit pattern of a number.\<close>

definition toUint32 :: "int \<Rightarrow> int" where
  "toUint32 n = uint (word_of_int n :: 32 word)"

text \<open>\<^verbatim>\<open>a & b\<close>, \<^verbatim>\<open>a | b\<close>, \<^verbatim>\<open>a ^ b\<close>\<close>

definition js_and :: "int \<Rightarrow> int \<Rightarrow> int" where
  "js_and a b = sint ((word_of_int a :: 32 word) AND word_of_int b)"

definition js_or :: "int \<Rightarrow> int \<Rightarrow> int" where
  "js_or a b = sint ((word_of_int a :: 32 word) OR word_of_int b)"

definition js_xor :: "int \<Rightarrow> int \<Rightarrow> int" where
  "js_xor a b = sint ((word_of_int a :: 32 word) XOR word_of_int b)"

text \<open>\<^verbatim>\<open>a << l\<close>, \<^verbatim>\<open>a >> l\<close> (sign-propagating), \<^verbatim>\<open>a >>> l\<close> (zero-filling)\<close>

definition js_shl :: "int \<Rightarrow> int \<Rightarrow> int" where
  "js_shl a l = sint (push_bit (nat (l mod 32)) (word_of_int a :: 32 word))"

definition js_sar :: "int \<Rightarrow> int \<Rightarrow> int" where
  "js_sar a l = sint (signed_drop_bit (nat (l mod 32)) (word_of_int a :: 32 word))"

definition js_shr :: "int \<Rightarrow> int \<Rightarrow> int" where
  "js_shr a l = uint (drop_bit (nat (l mod 32)) (word_of_int a :: 32 word))"

section \<open>Wide-integer arithmetic: class \<^verbatim>\<open>M64\<close>\<close>

text \<open>
  A wide word is the two-element array \<^verbatim>\<open>[aH, aL]\<close> that the methods of \<^verbatim>\<open>M64\<close>
  destructure: index 0 is the high half, index 1 the low half.
\<close>

type_synonym wide = "int \<times> int"

text \<open>The well-formed wide words of the specification: both halves in \<open>[0, 2^32)\<close>.\<close>

definition is_u32 :: "int \<Rightarrow> bool" where
  "is_u32 n \<longleftrightarrow> 0 \<le> n \<and> n < 2 ^ 32"

definition is_i32 :: "int \<Rightarrow> bool" where
  "is_i32 n \<longleftrightarrow> - (2 ^ 31) \<le> n \<and> n < 2 ^ 31"

definition wideword :: "wide \<Rightarrow> bool" where
  "wideword a \<longleftrightarrow> is_u32 (fst a) \<and> is_u32 (snd a)"

text \<open>The unsigned 64-bit integer a wide word stands for.\<close>

definition wide_val :: "wide \<Rightarrow> int" where
  "wide_val a = toUint32 (fst a) * 2 ^ 32 + toUint32 (snd a)"

text \<open>
  \<^verbatim>\<open>
  static mul32(a, b) {
    const [aH, aL] = [(a >> 16) & 0xffff, a & 0xffff];
    const [bH, bL] = [(b >> 16) & 0xffff, b & 0xffff];
    const c = aH * bL + aL * bH;
    return [aH * bH + (c >> 16), aL * bL + (c << 16)];
  }
  static imul32(a, b) { return M64.mul32(a, b)[1]; }
  \<close>
\<close>

definition mul32 :: "int \<Rightarrow> int \<Rightarrow> wide" where
  "mul32 a b =
     (let aH = js_and (js_sar a 16) 0xffff; aL = js_and a 0xffff;
          bH = js_and (js_sar b 16) 0xffff; bL = js_and b 0xffff;
          c = aH * bL + aL * bH
      in (aH * bH + js_sar c 16, aL * bL + js_shl c 16))"

definition imul32 :: "int \<Rightarrow> int \<Rightarrow> int" where
  "imul32 a b = snd (mul32 a b)"

text \<open>
  \<^verbatim>\<open>
  static add64([aH, aL], [bH, bL]) {
    return [(aH + bH) >>> 0, (aL + bL) >>> 0];
  }
  \<close>
\<close>

fun add64 :: "wide \<Rightarrow> wide \<Rightarrow> wide" where
  "add64 (aH, aL) (bH, bL) = (js_shr (aH + bH) 0, js_shr (aL + bL) 0)"

text \<open>
  \<^verbatim>\<open>
  static mul64([aH, aL], [bH, bL]) {
    const [cH, cL] = M64.add64(M64.mul32(aH, bL), M64.mul32(aL, bH));
    return [
      M64.add64(M64.mul64(aH, bH), [0, cH]),
      M64.add64(M64.mul64(aL, bL), [cL, 0]),
    ];
  }
  static imul64(a, b) { return M64.mul64(a, b)[1]; }
  \<close>
  The parameters are array patterns, and the method calls itself with the halves, which
  are numbers. Binding an array pattern to a number throws \<^verbatim>\<open>TypeError\<close> (a number is
  not iterable), so an argument of \<open>mul64\<close> is either a number or a two-element array of
  numbers.
\<close>

datatype error = TypeError | RangeError

datatype arg = Number int | Array2 int int

text \<open>
  What \<^verbatim>\<open>add64\<close> returns when its first argument is the array of two arrays that
  \<^verbatim>\<open>mul64\<close> returns: each \<^verbatim>\<open>+\<close> then has an array operand, so it concatenates
  strings (\<^verbatim>\<open>"x,y" + "0"\<close>), the text is not a numeral (\<^verbatim>\<open>NaN\<close>), and \<^verbatim>\<open>>>> 0\<close>
  turns it into 0.
\<close>

definition add64_arrays :: "wide \<times> wide \<Rightarrow> wide \<Rightarrow> wide" where
  "add64_arrays a b = (0, 0)"

function mul64 :: "arg \<Rightarrow> arg \<Rightarrow> error + (wide \<times> wide)" where
  "mul64 (Number a) b = Inl TypeError"
| "mul64 (Array2 aH aL) (Number b) = Inl TypeError"
| "mul64 (Array2 aH aL) (Array2 bH bL) =
     (let (cH, cL) = add64 (mul32 aH bL) (mul32 aL bH) in
      case mul64 (Number aH) (Number bH) of
        Inl e \<Rightarrow> Inl e
      | Inr hh \<Rightarrow>
         (case mul64 (Number aL) (Number bL) of
            Inl e \<Rightarrow> Inl e
          | Inr ll \<Rightarrow> Inr (add64_arrays hh (0, cH), add64_arrays ll (cL, 0))))"
  by pat_completeness auto
termination
  by (relation "measure (\<lambda>(a, b). case a of Number _ \<Rightarrow> 0 | Array2 _ _ \<Rightarrow> Suc 0)") auto

definition imul64 :: "arg \<Rightarrow> arg \<Rightarrow> error + wide" where
  "imul64 a b = (case mul64 a b of Inl e \<Rightarrow> Inl e | Inr r \<Rightarrow> Inr (snd r))"

text \<open>
  \<^verbatim>\<open>
  static shift64([aH, aL], l) {
    if (l > 0) return [aH >> l, (aH << (32 - l)) | (aL >> l)];
    if (l < 0) return [(aH << -l) | (aL >> (32 + l)), aL << -l];
    return arguments;
  }
  \<close>
  For \<open>l = 0\<close> the method returns its \<^verbatim>\<open>arguments\<close> object: the array-like object
  whose element 0 is the array passed as first argument and whose element 1 is \<open>l\<close>.
\<close>

datatype shifted = Halves int int | Arguments wide int

fun shift64 :: "wide \<Rightarrow> int \<Rightarrow> shifted" where
  "shift64 (aH, aL) l =
     (if l > 0 then Halves (js_sar aH l) (js_or (js_shl aH (32 - l)) (js_sar aL l))
      else if l < 0 then Halves (js_or (js_shl aH (- l)) (js_sar aL (32 + l))) (js_shl aL (- l))
      else Arguments (aH, aL) l)"

text \<open>
  \<^verbatim>\<open>
  static xor64([aH, aL], [bH, bL]) { return [aH ^ bH, aL ^ bL]; }
  \<close>
\<close>

fun xor64 :: "wide \<Rightarrow> wide \<Rightarrow> wide" where
  "xor64 (aH, aL) (bH, bL) = (js_xor aH bH, js_xor aL bL)"

text \<open>
  The array pattern \<^verbatim>\<open>[bH, bL]\<close> of \<^verbatim>\<open>xor64\<close> bound to a result of \<^verbatim>\<open>shift64\<close>.
  An \<^verbatim>\<open>arguments\<close> object is iterable: \<^verbatim>\<open>bH\<close> is then the array that was shifted, which
  \<^verbatim>\<open>^\<close> coerces to \<^verbatim>\<open>NaN\<close> and so to 0, and \<^verbatim>\<open>bL\<close> is the shift amount.
\<close>

fun halves :: "shifted \<Rightarrow> wide" where
  "halves (Halves h l) = (h, l)"
| "halves (Arguments a l) = (0, l)"

section \<open>The seeded generator: class \<^verbatim>\<open>PRNG\<close>\<close>

text \<open>
  A string of the host is a sequence of 16-bit code units: \<^verbatim>\<open>str.length\<close> counts them
  and \<^verbatim>\<open>str.charCodeAt(i)\<close> reads one.
\<close>

type_synonym jsstring = "16 word list"

text \<open>
  The text of an integer-valued number, as \<^verbatim>\<open>nL + str\<close> produces it: decimal digits,
  with a leading minus sign for a negative number.
\<close>

function digits :: "nat \<Rightarrow> jsstring" where
  "digits n = (if n < 10 then [of_nat (48 + n)] else digits (n div 10) @ [of_nat (48 + n mod 10)])"
  by pat_completeness auto
termination
  by (relation "measure (\<lambda>n. n)") auto

declare digits.simps [simp del]

definition number_text :: "int \<Rightarrow> jsstring" where
  "number_text n = (if n < 0 then 45 # digits (nat (- n)) else digits (nat n))"

text \<open>
  For the statement of what this text is: the reader of a decimal numeral, which accepts
  the digits \<open>0\<close> to \<open>9\<close> without a leading zero, after a minus sign for a negative
  value (and not for zero), and returns the value; any other text is refused.
\<close>

definition is_digit :: "16 word \<Rightarrow> bool" where
  "is_digit c \<longleftrightarrow> 48 \<le> c \<and> c \<le> 57"

definition digits_value :: "jsstring \<Rightarrow> nat" where
  "digits_value s = foldl (\<lambda>a c. 10 * a + (unat c - 48)) 0 s"

definition unsigned_numeral :: "jsstring \<Rightarrow> nat option" where
  "unsigned_numeral s =
     (if s = [] \<or> \<not> list_all is_digit s then None
      else if hd s = 48 \<and> 1 < length s then None
      else Some (digits_value s))"

definition decimal_numeral :: "jsstring \<Rightarrow> int option" where
  "decimal_numeral s =
     (case s of
        [] \<Rightarrow> None
      | c # cs \<Rightarrow>
          if c = 45 then
            (case unsigned_numeral cs of
               None \<Rightarrow> None
             | Some k \<Rightarrow> if k = 0 then None else Some (- int k))
          else map_option int (unsigned_numeral s))"

text \<open>
  \<^verbatim>\<open>
  static hash32(str) {
    let hash = 1779033703 ^ str.length;
    for (let i = 0; i < str.length; i++)
      (hash = M64.imul32(hash ^ str.charCodeAt(i), 3432918353)),
        (hash = (hash << 13) | (hash >>> 19));
    return hash;
  }
  \<close>
\<close>

definition hash32_step :: "int \<Rightarrow> 16 word \<Rightarrow> int" where
  "hash32_step hash c =
     (let hash = imul32 (js_xor hash (uint c)) 3432918353
      in js_or (js_shl hash 13) (js_shr hash 19))"

definition hash32 :: "jsstring \<Rightarrow> int" where
  "hash32 str = foldl hash32_step (js_xor 1779033703 (int (length str))) str"

text \<open>
  \<^verbatim>\<open>
  static get max32() { return 0xffffffff; }
  static hash64(str) {
    const nL = PRNG.hash32(str),
      nH = PRNG.hash32(nL + str);
    return [nL, nH];
  }
  \<close>
  The method names its first hash \<^verbatim>\<open>nL\<close> (the low half) and its second \<^verbatim>\<open>nH\<close> (the
  high half), and returns them in this order: element 0 is \<^verbatim>\<open>nL\<close>, element 1 is \<^verbatim>\<open>nH\<close>.
\<close>

definition max32 :: int where
  "max32 = 0xffffffff"

definition hash64 :: "jsstring \<Rightarrow> int \<times> int" where
  "hash64 str =
     (let nL = hash32 str;
          nH = hash32 (number_text nL @ str)
      in (nL, nH))"

text \<open>
  \<^verbatim>\<open>
  static from(seed = new Date().toString()) {
    const RNG = new PRNG();
    RNG.s0 = PRNG.hash64(seed);
    RNG.s1 = PRNG.hash64(RNG.s0 + seed);
    return RNG;
  }
  \<close>
  \<^verbatim>\<open>RNG.s0 + seed\<close> adds an array to a string: the array becomes the text of its two
  elements joined by a comma. The default seed is the clock's text, which the caller of
  the model passes in.
\<close>

record prng =
  s0 :: wide
  s1 :: wide

definition "from" :: "jsstring \<Rightarrow> prng" where
  "from seed =
     (let a = hash64 seed;
          b = hash64 (number_text (fst a) @ [44] @ number_text (snd a) @ seed)
      in \<lparr>s0 = a, s1 = b\<rparr>)"

text \<open>
  \<^verbatim>\<open>
  copy() {
    const RNG = new PRNG();
    return Object.assign(RNG, this);
  }
  \<close>
  The new object gets the two fields of this one; the arrays they hold are never
  written to, so the copy is the same pair of values.
\<close>

definition copy :: "prng \<Rightarrow> prng" where
  "copy g = \<lparr>s0 = s0 g, s1 = s1 g\<rparr>"

text \<open>
  \<^verbatim>\<open>
  rand64() {
    let [x, y] = [this.s0, this.s1];
    x = M64.xor64(x, M64.shift64(x, -23));
    [this.s0, this.s1] = [
      this.s1,
      M64.xor64(
        M64.xor64(x, y),
        M64.xor64(M64.shift64(x, 17), M64.shift64(y, 26))
      ),
    ];
    return M64.add64(this.s1, y);
  }
  \<close>
  The method updates the generator in place; the model returns the output word together
  with the updated generator.
\<close>

definition rand64 :: "prng \<Rightarrow> wide \<times> prng" where
  "rand64 g =
     (let x = s0 g; y = s1 g;
          x = xor64 x (halves (shift64 x (- 23)));
          g' = \<lparr>s0 = y,
                s1 = xor64 (xor64 x y) (xor64 (halves (shift64 x 17)) (halves (shift64 y 26)))\<rparr>
      in (add64 (s1 g') y, g'))"

text \<open>
  \<^verbatim>\<open>
  rand() { return this.rand32() / PRNG.max32; }
  rand32() { return this.rand64()[0]; }
  \<close>
  \<open>rand\<close> gives the exact quotient of the two integers. The number the host holds is this
  quotient rounded to the nearest double; the rounding, \<open>to_double\<close>, is applied
  where \<^verbatim>\<open>loss\<close> takes the draw.
\<close>

definition rand32 :: "prng \<Rightarrow> int \<times> prng" where
  "rand32 g = (let (w, g') = rand64 g in (fst w, g'))"

definition rand :: "prng \<Rightarrow> rat \<times> prng" where
  "rand g = (let (n, g') = rand32 g in (of_int n / of_int max32, g'))"

subsection \<open>The step on 64-bit words\<close>

text \<open>
  The 64-bit word that a pair of halves stands for, each half read by its 32-bit pattern,
  and the test that bit 31 of a half is clear.
\<close>

definition word64 :: "wide \<Rightarrow> 64 word" where
  "word64 a = word_of_int (wide_val a)"

definition top_clear :: "int \<Rightarrow> bool" where
  "top_clear n \<longleftrightarrow> \<not> bit (word_of_int n :: 32 word) 31"

text \<open>
  The step in the words of the specification: \<open>x = s0\<close>, \<open>x ^= x >> 23\<close>,
  \<open>newS1 = x ^ s1 ^ (x << 17) ^ (s1 << 26)\<close>, \<open>newS0 = s1\<close>, output \<open>newS1 + s1\<close>,
  on 64-bit words. It returns the new state and the output.
\<close>

definition spec_next :: "64 word \<times> 64 word \<Rightarrow> (64 word \<times> 64 word) \<times> 64 word" where
  "spec_next s =
     (let x = fst s;
          x = x XOR drop_bit 23 x;
          newS1 = x XOR snd s XOR push_bit 17 x XOR push_bit 26 (snd s);
          newS0 = snd s
      in ((newS0, newS1), newS1 + snd s))"

text \<open>
  The same step with the three shifts in the other direction, left by 23 and right by
  17 and by 26, as \<^verbatim>\<open>rand64\<close> calls \<^verbatim>\<open>shift64\<close> (a negative amount shifts left).
\<close>

definition xorshift128plus :: "64 word \<times> 64 word \<Rightarrow> (64 word \<times> 64 word) \<times> 64 word" where
  "xorshift128plus s =
     (let x = fst s;
          x = x XOR push_bit 23 x;
          newS1 = x XOR snd s XOR drop_bit 17 x XOR drop_bit 26 (snd s);
          newS0 = snd s
      in ((newS0, newS1), newS1 + snd s))"

section \<open>The host's numbers\<close>

text \<open>
  Where \<^verbatim>\<open>loss\<close> multiplies and compares, the numbers of the host are IEEE 754
  double-precision values: not-a-number, the two infinities, and the finite values with a
  sign (\<open>True\<close> for minus, so that there are two zeros) and a magnitude. A product and a
  quotient are the exact result rounded to the nearest double, ties to the even
  significand: the doubles around a magnitude \<open>q\<close> with \<open>2^e \<le> q < 2^(e+1)\<close> are the
  multiples of \<open>2^(e-52)\<close>, of \<open>2^-1074\<close> below \<open>2^-1022\<close>, and a result that rounds to
  \<open>2^1024\<close> or more is infinite.
\<close>

datatype number = NaN | Infinity bool | Finite bool rat

definition pow2 :: "int \<Rightarrow> rat" where
  "pow2 k = (if 0 \<le> k then 2 ^ nat k else 1 / 2 ^ nat (- k))"

text \<open>The exponent \<open>e\<close> with \<open>2^e \<le> q < 2^(e+1)\<close>, for \<open>q > 0\<close>.\<close>

definition exponent :: "rat \<Rightarrow> int" where
  "exponent q = (if 1 \<le> q then bitlen \<lfloor>q\<rfloor> - 1 else - bitlen (\<lceil>1 / q\<rceil> - 1))"

definition round_half_even :: "rat \<Rightarrow> int" where
  "round_half_even q =
     (let f = \<lfloor>q\<rfloor>; r = q - of_int f
      in if r < 1 / 2 then f else if 1 / 2 < r then f + 1 else if even f then f else f + 1)"

text \<open>The double nearest to the magnitude \<open>q \<ge> 0\<close>, with the sign \<open>s\<close>.\<close>

definition double :: "bool \<Rightarrow> rat \<Rightarrow> number" where
  "double s q =
     (if q = 0 then Finite s 0
      else let e = max (exponent q) (- 1022);
               ulp = pow2 (e - 52);
               v = of_int (round_half_even (q / ulp)) * ulp
           in if pow2 1024 \<le> v then Infinity s else Finite s v)"

definition to_double :: "rat \<Rightarrow> number" where
  "to_double q = double (q < 0) \<bar>q\<bar>"

text \<open>\<^verbatim>\<open>-a\<close>, \<^verbatim>\<open>a * b\<close>, \<^verbatim>\<open>a < b\<close> and \<^verbatim>\<open>a > b\<close> on numbers.\<close>

fun js_neg :: "number \<Rightarrow> number" where
  "js_neg NaN = NaN"
| "js_neg (Infinity s) = Infinity (\<not> s)"
| "js_neg (Finite s q) = Finite (\<not> s) q"

fun js_mul :: "number \<Rightarrow> number \<Rightarrow> number" where
  "js_mul NaN b = NaN"
| "js_mul a NaN = NaN"
| "js_mul (Infinity s) (Infinity t) = Infinity (s \<noteq> t)"
| "js_mul (Infinity s) (Finite t q) = (if q = 0 then NaN else Infinity (s \<noteq> t))"
| "js_mul (Finite s p) (Infinity t) = (if p = 0 then NaN else Infinity (s \<noteq> t))"
| "js_mul (Finite s p) (Finite t q) = double (s \<noteq> t) (p * q)"

definition signed :: "bool \<Rightarrow> rat \<Rightarrow> rat" where
  "signed s q = (if s then - q else q)"

fun js_lt :: "number \<Rightarrow> number \<Rightarrow> bool" where
  "js_lt NaN b = False"
| "js_lt a NaN = False"
| "js_lt (Infinity s) (Infinity t) = (s \<and> \<not> t)"
| "js_lt (Infinity s) (Finite t q) = s"
| "js_lt (Finite s p) (Infinity t) = (\<not> t)"
| "js_lt (Finite s p) (Finite t q) = (signed s p < signed t q)"

definition js_gt :: "number \<Rightarrow> number \<Rightarrow> bool" where
  "js_gt a b = js_lt b a"

section \<open>The terrain engine: class \<^verbatim>\<open>Maze\<close>\<close>

text \<open>
  \<^verbatim>\<open>
  static isEdge(X, Y) {
    return (x, y) => x++ <= 0 || x >= X || y++ <= 0 || y >= Y;
  }
  \<close>
  \<^verbatim>\<open>x++ <= 0\<close> compares the coordinate as passed and then increments it, so the
  second test reads the incremented coordinate.
\<close>

definition isEdge :: "int \<Rightarrow> int \<Rightarrow> int \<Rightarrow> int \<Rightarrow> bool" where
  "isEdge X Y x y =
     (x \<le> 0 \<or> (let x = x + 1 in x \<ge> X \<or> y \<le> 0 \<or> (let y = y + 1 in y \<ge> Y)))"

text \<open>
  The value in the field \<^verbatim>\<open>RNG\<close> of a maze: a \<^verbatim>\<open>PRNG\<close> object, held here by its
  state, or the function object \<^verbatim>\<open>PRNG.prototype.copy\<close>, which is what the expression
  \<^verbatim>\<open>this.RNG.copy\<close> (a property read, not a call) evaluates to on a \<^verbatim>\<open>PRNG\<close> object.
\<close>

datatype rng = Generator prng | CopyMethod

text \<open>
  \<^verbatim>\<open>this.RNG.copy\<close>: the method of a generator; \<^verbatim>\<open>undefined\<close> (\<open>None\<close>) on a function
  object, which has no property of that name.
\<close>

fun copy_property :: "rng \<Rightarrow> rng option" where
  "copy_property (Generator g) = Some CopyMethod"
| "copy_property CopyMethod = None"

text \<open>
  \<^verbatim>\<open>this.RNG.rand()\<close>: a draw on a generator, as the double that the division returns;
  \<^verbatim>\<open>TypeError\<close> on the function object, which has no method \<^verbatim>\<open>rand\<close>.
\<close>

fun rng_rand :: "rng \<Rightarrow> error + (number \<times> rng)" where
  "rng_rand (Generator g) = (let (d, g') = rand g in Inr (to_double d, Generator g'))"
| "rng_rand CopyMethod = Inl TypeError"

text \<open>
  \<^verbatim>\<open>
  constructor(X, Y, RNG = PRNG.from(), isWall = Maze.isEdge(X, Y)) {
    [this.X, this.Y, this.RNG, this.isWall] = [X, Y, RNG, isWall];
    this.data = _.map(Array(this.Y), () => Array(this.X).fill(false));
  }
  \<close>
  Sizes are natural numbers. A default applies where the argument is \<^verbatim>\<open>undefined\<close>
  (\<open>None\<close>); the first parameter of the model is the clock's text that \<^verbatim>\<open>PRNG.from()\<close>
  hashes. \<^verbatim>\<open>Array(n)\<close> throws \<^verbatim>\<open>RangeError\<close> from \<open>n = 2^32\<close> on.
\<close>

record maze =
  mX :: nat
  mY :: nat
  RNG :: rng
  isWall :: "int \<Rightarrow> int \<Rightarrow> bool"
  data :: "bool list list"

definition Maze :: "jsstring \<Rightarrow> nat \<Rightarrow> nat \<Rightarrow> rng option \<Rightarrow> (int \<Rightarrow> int \<Rightarrow> bool) option \<Rightarrow> error + maze" where
  "Maze now X Y rng_arg isWall_arg =
     (let r = (case rng_arg of None \<Rightarrow> Generator (from now) | Some r \<Rightarrow> r);
          w = (case isWall_arg of None \<Rightarrow> isEdge (int X) (int Y) | Some w \<Rightarrow> w)
      in if int Y \<ge> 2 ^ 32 \<or> (Y > 0 \<and> int X \<ge> 2 ^ 32) then Inl RangeError
         else Inr \<lparr>mX = X, mY = Y, RNG = r, isWall = w, data = replicate Y (replicate X False)\<rparr>)"

subsection \<open>\<^verbatim>\<open>loss\<close>\<close>

text \<open>
  \<^verbatim>\<open>
  loss(rate, factor) {
    const pos = (x, y) => this.RNG.rand() > -rate * factor(x, y),
      neg = (x, y) => this.RNG.rand() < rate * factor(x, y);
    this.data = _.map(this.data, (row, y) =>
      _.map(row, (value, x) => (value ? pos(x, y) : neg(x, y)))
    );
    return this;
  }
  \<close>
  The rows are visited in order and, within a row, the cells in order; each cell takes
  one draw. \<^verbatim>\<open>rate\<close> and the values of \<^verbatim>\<open>factor\<close> are numbers of the host, and
  \<^verbatim>\<open>-rate * factor(x, y)\<close> negates \<^verbatim>\<open>rate\<close> before it multiplies.
\<close>

definition loss_cell :: "number \<Rightarrow> (nat \<Rightarrow> nat \<Rightarrow> number) \<Rightarrow> nat \<Rightarrow> nat \<Rightarrow> bool \<Rightarrow> rng \<Rightarrow> error + (bool \<times> rng)" where
  "loss_cell rate factor x y v r =
     (case rng_rand r of
        Inl e \<Rightarrow> Inl e
      | Inr (d, r') \<Rightarrow>
          Inr (if v then js_gt d (js_mul (js_neg rate) (factor x y))
               else js_lt d (js_mul rate (factor x y)), r'))"

fun loss_row :: "number \<Rightarrow> (nat \<Rightarrow> nat \<Rightarrow> number) \<Rightarrow> nat \<Rightarrow> nat \<Rightarrow> bool list \<Rightarrow> rng \<Rightarrow> error + (bool list \<times> rng)" where
  "loss_row rate factor y x [] r = Inr ([], r)"
| "loss_row rate factor y x (v # vs) r =
     (case loss_cell rate factor x y v r of
        Inl e \<Rightarrow> Inl e
      | Inr (v', r') \<Rightarrow>
         (case loss_row rate factor y (Suc x) vs r' of
            Inl e \<Rightarrow> Inl e
          | Inr (vs', r'') \<Rightarrow> Inr (v' # vs', r'')))"

fun loss_rows :: "number \<Rightarrow> (nat \<Rightarrow> nat \<Rightarrow> number) \<Rightarrow> nat \<Rightarrow> bool list list \<Rightarrow> rng \<Rightarrow> error + (bool list list \<times> rng)" where
  "loss_rows rate factor y [] r = Inr ([], r)"
| "loss_rows rate factor y (row # rows) r =
     (case loss_row rate factor y 0 row r of
        Inl e \<Rightarrow> Inl e
      | Inr (row', r') \<Rightarrow>
         (case loss_rows rate factor (Suc y) rows r' of
            Inl e \<Rightarrow> Inl e
          | Inr (rows', r'') \<Rightarrow> Inr (row' # rows', r'')))"

definition loss :: "number \<Rightarrow> (nat \<Rightarrow> nat \<Rightarrow> number) \<Rightarrow> maze \<Rightarrow> error + maze" where
  "loss rate factor m =
     (case loss_rows rate factor 0 (data m) (RNG m) of
        Inl e \<Rightarrow> Inl e
      | Inr (d, r) \<Rightarrow> Inr (m\<lparr>RNG := r, data := d\<rparr>))"

text \<open>
  For the statement of what a pass does: the generator after one draw, the \<open>k\<close>-th draw
  of a generator (counted from 0) as the double that \<^verbatim>\<open>rand()\<close> returns, and the number
  of cells in the rows before row \<open>y\<close>, which is the number of draws taken before that row.
\<close>

definition next_state :: "prng \<Rightarrow> prng" where
  "next_state g = snd (rand g)"

definition draw :: "prng \<Rightarrow> nat \<Rightarrow> number" where
  "draw g k = to_double (fst (rand ((next_state ^^ k) g)))"

definition cell_index :: "bool list list \<Rightarrow> nat \<Rightarrow> nat" where
  "cell_index rows y = sum_list (map length (take y rows))"

subsection \<open>\<^verbatim>\<open>split\<close>\<close>

text \<open>
  \<^verbatim>\<open>
  split(divX = 2, divY = divX) {
    const cuts = (div, size) =>
        _.map(_.range(size / div), (x) => [x * div, (x + 1) * div]),
      cut = (div, size, rect) =>
        _.map(cuts(div, size), ([s, e]) =>
          _.map(rect, (row) => _.slice(row, s, e))
        );
    return _.map(_.map(cut(divY, this.Y, [this.data]), _.head), (rect) =>
      _.map(cut(divX, this.X, rect), (data) =>
        Object.assign(
          new Maze(_.head(data).length, data.length, this.RNG.copy),
          { data }
        )
      )
    );
  }
  \<close>
  The divisors are natural numbers (\<open>dv\<close> and \<open>sz\<close> stand for the source's \<^verbatim>\<open>div\<close> and
  \<^verbatim>\<open>size\<close>). \<^verbatim>\<open>_.range(q)\<close> counts from 0 in \<open>\<lceil>q\<rceil>\<close> steps; the
  quotient by 0 of a positive size is infinite, for which it throws \<^verbatim>\<open>RangeError\<close>,
  and \<open>0 / 0\<close> gives the empty range. \<^verbatim>\<open>_.slice\<close> clamps at the end of the array,
  \<^verbatim>\<open>_.head\<close> of an empty array is \<^verbatim>\<open>undefined\<close>, and \<^verbatim>\<open>_.map\<close> of \<^verbatim>\<open>undefined\<close> is
  empty.
\<close>

definition range_div :: "nat \<Rightarrow> nat \<Rightarrow> error + nat list" where
  "range_div sz dv =
     (if dv = 0 then (if sz = 0 then Inr [] else Inl RangeError)
      else Inr [0 ..< (sz + dv - 1) div dv])"

definition slice :: "'a list \<Rightarrow> nat \<Rightarrow> nat \<Rightarrow> 'a list" where
  "slice xs s e = take (e - s) (drop s xs)"

definition head :: "'a list \<Rightarrow> 'a option" where
  "head xs = (case xs of [] \<Rightarrow> None | x # _ \<Rightarrow> Some x)"

definition cuts :: "nat \<Rightarrow> nat \<Rightarrow> error + (nat \<times> nat) list" where
  "cuts dv sz =
     (case range_div sz dv of
        Inl e \<Rightarrow> Inl e
      | Inr xs \<Rightarrow> Inr (map (\<lambda>x. (x * dv, (x + 1) * dv)) xs))"

definition cut :: "nat \<Rightarrow> nat \<Rightarrow> 'a list list \<Rightarrow> error + 'a list list list" where
  "cut dv sz rect =
     (case cuts dv sz of
        Inl e \<Rightarrow> Inl e
      | Inr cs \<Rightarrow> Inr (map (\<lambda>(s, e). map (\<lambda>row. slice row s e) rect) cs))"

text \<open>\<^verbatim>\<open>_.map\<close> with a callback that may throw: the first exception ends the traversal.\<close>

fun map_err :: "('a \<Rightarrow> error + 'b) \<Rightarrow> 'a list \<Rightarrow> error + 'b list" where
  "map_err f [] = Inr []"
| "map_err f (x # xs) =
     (case f x of
        Inl e \<Rightarrow> Inl e
      | Inr y \<Rightarrow> (case map_err f xs of Inl e \<Rightarrow> Inl e | Inr ys \<Rightarrow> Inr (y # ys)))"

text \<open>
  The innermost callback of \<^verbatim>\<open>split\<close>: one room from its rows. The clock's text is
  read only where the parent's field \<^verbatim>\<open>RNG\<close> has no property \<^verbatim>\<open>copy\<close>; the model takes
  one text for all rooms.
\<close>

definition room :: "jsstring \<Rightarrow> maze \<Rightarrow> bool list list \<Rightarrow> error + maze" where
  "room now m d =
     (case head d of
        None \<Rightarrow> Inl TypeError
      | Some row \<Rightarrow>
         (case Maze now (length row) (length d) (copy_property (RNG m)) None of
            Inl e \<Rightarrow> Inl e
          | Inr child \<Rightarrow> Inr (child\<lparr>data := d\<rparr>)))"

definition split :: "jsstring \<Rightarrow> nat \<Rightarrow> nat \<Rightarrow> maze \<Rightarrow> error + maze list list" where
  "split now divX divY m =
     (case cut divY (mY m) [data m] of
        Inl e \<Rightarrow> Inl e
      | Inr bands \<Rightarrow>
          map_err
            (\<lambda>rect.
               case cut divX (mX m) (case rect of None \<Rightarrow> [] | Some rows \<Rightarrow> rows) of
                 Inl e \<Rightarrow> Inl e
               | Inr pieces \<Rightarrow> map_err (room now m) pieces)
            (map head bands))"

subsection \<open>Sample mazes\<close>

text \<open>Small mazes on which the operations are run below.\<close>

definition closed1 :: maze where
  "closed1 = \<lparr>mX = 1, mY = 1, RNG = Generator \<lparr>s0 = (0, 0), s1 = (0, 0)\<rparr>,
     isWall = isEdge 1 1, data = [[False]]\<rparr>"

definition open1 :: maze where
  "open1 = \<lparr>mX = 1, mY = 1, RNG = Generator \<lparr>s0 = (0, 0), s1 = (0, 0)\<rparr>,
     isWall = isEdge 1 1, data = [[True]]\<rparr>"

definition mixed3 :: maze where
  "mixed3 = \<lparr>mX = 3, mY = 1, RNG = Generator \<lparr>s0 = (1, 2), s1 = (3, 4)\<rparr>,
     isWall = isEdge 3 1, data = [[True, False, False]]\<rparr>"

definition grid2 :: maze where
  "grid2 = \<lparr>mX = 2, mY = 2, RNG = Generator \<lparr>s0 = (1, 2), s1 = (3, 4)\<rparr>,
     isWall = isEdge 2 2, data = [[True, False], [False, True]]\<rparr>"

section \<open>Properties\<close>

subsection \<open>Facts about the 32-bit operators\<close>

lemma js_shr_0: "js_shr n 0 = n mod 2 ^ 32"
  by (simp add: js_shr_def uint_word_of_int take_bit_eq_mod)

lemma is_u32_js_shr_0: "is_u32 (js_shr n 0)"
  by (simp add: js_shr_0 is_u32_def)

lemma is_i32_sint: "is_i32 (sint (w :: 32 word))"
  using sint_ge [of w] sint_lt [of w] by (simp add: is_i32_def)

lemma toUint32_id: "is_u32 n \<Longrightarrow> toUint32 n = n"
  by (simp add: toUint32_def is_u32_def uint_word_of_int take_bit_eq_mod)

lemma mod_twice:
  assumes "0 \<le> x" and "x < 2 * m"
  shows "(x :: int) mod m = (if x < m then x else x - m)"
proof (cases "x < m")
  case True
  with assms show ?thesis by (simp add: mod_pos_pos_trivial)
next
  case False
  with assms have "(x - m) mod m = x - m" by (intro mod_pos_pos_trivial) simp_all
  then have "x mod m = x - m" by simp
  with False show ?thesis by simp
qed

subsection \<open>Wide addition\<close>

text \<open>
  C1, as stated: \<^verbatim>\<open>add\<close> returns the exact 64-bit sum modulo \<open>2^64\<close>, a carry out of the
  low half going into the high half. \<^verbatim>\<open>add64\<close> has no carry: at \<open>[0, 0xffffffff] + [0, 1]\<close>
  it returns \<open>[0, 0]\<close>, and the 64-bit sum is \<open>2^32\<close>.
\<close>

theorem add64_counterexample:
  "wideword (0, 4294967295) \<and> wideword (0, 1) \<and> add64 (0, 4294967295) (0, 1) = (0, 0)
   \<and> wide_val (add64 (0, 4294967295) (0, 1)) \<noteq> (wide_val (0, 4294967295) + wide_val (0, 1)) mod 2 ^ 64"
  by (simp add: wideword_def is_u32_def wide_val_def toUint32_def js_shr_def)

text \<open>
  C1, amended: for wide words \<open>a\<close> and \<open>b\<close>, \<^verbatim>\<open>add64\<close> adds the high halves and the low
  halves separately, each sum wrapped modulo \<open>2^32\<close>, so the result is again a wide word;
  nothing is carried from the low half into the high half, and the result is the 64-bit
  sum modulo \<open>2^64\<close> exactly when the low halves add up to less than \<open>2^32\<close>.
\<close>

theorem add64_halfwise:
  assumes "wideword a" and "wideword b"
  shows "add64 a b = ((fst a + fst b) mod 2 ^ 32, (snd a + snd b) mod 2 ^ 32)
    \<and> wideword (add64 a b)
    \<and> (wide_val (add64 a b) = (wide_val a + wide_val b) mod 2 ^ 64 \<longleftrightarrow> snd a + snd b < 2 ^ 32)"
proof -
  obtain aH aL bH bL where a: "a = (aH, aL)" and b: "b = (bH, bL)"
    by (cases a, cases b) auto
  from assms a b have r: "0 \<le> aH" "aH < 4294967296" "0 \<le> aL" "aL < 4294967296"
    "0 \<le> bH" "bH < 4294967296" "0 \<le> bL" "bL < 4294967296"
    by (simp_all add: wideword_def is_u32_def)
  have e: "add64 a b = ((aH + bH) mod 2 ^ 32, (aL + bL) mod 2 ^ 32)"
    by (simp add: a b js_shr_0)
  have w: "wideword (add64 a b)"
    by (simp add: e wideword_def is_u32_def)
  have va: "wide_val a = aH * 4294967296 + aL" and vb: "wide_val b = bH * 4294967296 + bL"
    using assms by (simp_all add: wide_val_def toUint32_id wideword_def a b)
  have vs: "wide_val (add64 a b) = ((aH + bH) mod 4294967296) * 4294967296 + (aL + bL) mod 4294967296"
    using w by (simp add: wide_val_def toUint32_id wideword_def e)
  have h: "(aH + bH) mod 4294967296 = (if aH + bH < 4294967296 then aH + bH else aH + bH - 4294967296)"
    using r by (intro mod_twice) simp_all
  have l: "(aL + bL) mod 4294967296 = (if aL + bL < 4294967296 then aL + bL else aL + bL - 4294967296)"
    using r by (intro mod_twice) simp_all
  define t where "t = (aH + bH) * 4294967296 + (aL + bL)"
  have t: "t mod 18446744073709551616 = (if t < 18446744073709551616 then t else t - 18446744073709551616)"
    using r unfolding t_def by (intro mod_twice) simp_all
  have s: "wide_val a + wide_val b = t"
    by (simp add: va vb t_def algebra_simps)
  have "wide_val (add64 a b) = (wide_val a + wide_val b) mod 2 ^ 64 \<longleftrightarrow> aL + bL < 2 ^ 32"
    unfolding s vs h l using r by (simp add: t) (auto simp add: t_def)
  with e w show ?thesis by (simp add: a b)
qed

theorem add64_halfwise_witness:
  "wideword (1, 4294967295) \<and> wideword (2, 3) \<and> add64 (1, 4294967295) (2, 3) = (3, 2)
   \<and> wide_val (add64 (1, 4294967295) (2, 3)) \<noteq> (wide_val (1, 4294967295) + wide_val (2, 3)) mod 2 ^ 64"
proof -
  have a: "wideword (1, 4294967295)" and b: "wideword (2, 3)"
    by (simp_all add: wideword_def is_u32_def)
  from add64_halfwise [OF a b] show ?thesis using a b by (simp add: js_shr_0)
qed

subsection \<open>Shift by zero\<close>

text \<open>
  C3 says that a shift by 0 returns the input wide word unchanged. \<^verbatim>\<open>shift64\<close> returns
  its \<^verbatim>\<open>arguments\<close> object instead: an object of two elements, the first the input
  array and the second the amount 0; it is not a pair of two 32-bit halves.
\<close>

theorem shift64_zero:
  "shift64 (aH, aL) 0 = Arguments (aH, aL) 0 \<and> shift64 (aH, aL) 0 \<noteq> Halves aH aL"
  by simp

subsection \<open>Wide multiplication\<close>

text \<open>
  C4 says that \<^verbatim>\<open>imul64\<close> returns the low 64 bits of the product and that \<^verbatim>\<open>mul64\<close>
  returns on all wide words. On every pair of wide words \<^verbatim>\<open>mul64\<close> calls itself with
  the two high halves, which are numbers, and binding its array pattern to a number
  throws \<^verbatim>\<open>TypeError\<close>: neither method ever returns a product.
\<close>

theorem mul64_throws: "mul64 (Array2 aH aL) (Array2 bH bL) = Inl TypeError \<and> imul64 (Array2 aH aL) (Array2 bH bL) = Inl TypeError"
  by (simp add: imul64_def split: prod.splits)

subsection \<open>Range of the halves\<close>

text \<open>
  C5, as stated: every operation returns halves in \<open>[0, 2^32)\<close>. \<^verbatim>\<open>^\<close>, \<^verbatim>\<open>|\<close>, \<^verbatim>\<open><<\<close>
  and \<^verbatim>\<open>>>\<close> return signed 32-bit numbers, so \<^verbatim>\<open>xor64\<close> and \<^verbatim>\<open>shift64\<close> return a
  negative half as soon as bit 31 of it is set; \<^verbatim>\<open>mul32\<close> does not truncate its sums.
\<close>

theorem halves_range_counterexample:
  "wideword (2147483648, 0) \<and> wideword (0, 0)
   \<and> xor64 (2147483648, 0) (0, 0) = (- 2147483648, 0)
   \<and> \<not> wideword (xor64 (2147483648, 0) (0, 0))
   \<and> shift64 (2147483648, 0) 1 = Halves (- 1073741824) 0
   \<and> is_u32 4294901760 \<and> is_u32 65535 \<and> mul32 4294901760 65535 = (- 2, 65536)"
  by (simp add: wideword_def is_u32_def js_xor_def js_sar_def js_shl_def js_or_def js_and_def mul32_def)

text \<open>
  C5, amended: for wide words \<open>a\<close> and \<open>b\<close>, \<^verbatim>\<open>add64\<close> returns halves in \<open>[0, 2^32)\<close>;
  \<^verbatim>\<open>xor64\<close>, and \<^verbatim>\<open>shift64\<close> by an amount other than 0, return a pair of halves that
  are signed 32-bit numbers, in \<open>[-2^31, 2^31)\<close>.
\<close>

theorem halves_range:
  assumes "wideword a" and "wideword b"
  shows "wideword (add64 a b)
    \<and> is_i32 (fst (xor64 a b)) \<and> is_i32 (snd (xor64 a b))
    \<and> (l \<noteq> 0 \<longrightarrow> is_i32 (fst (halves (shift64 a l))) \<and> is_i32 (snd (halves (shift64 a l)))
          \<and> shift64 a l = Halves (fst (halves (shift64 a l))) (snd (halves (shift64 a l))))"
proof -
  obtain aH aL bH bL where a: "a = (aH, aL)" and b: "b = (bH, bL)"
    by (cases a, cases b) auto
  show ?thesis
    by (simp add: a b wideword_def is_u32_js_shr_0 js_xor_def js_sar_def js_shl_def js_or_def is_i32_sint)
qed

theorem halves_range_witness:
  "wideword (2147483648, 5) \<and> wideword (1, 7) \<and> (1 :: int) \<noteq> 0
   \<and> wideword (add64 (2147483648, 5) (1, 7))
   \<and> is_i32 (fst (xor64 (2147483648, 5) (1, 7)))
   \<and> shift64 (2147483648, 5) 1 = Halves (- 1073741824) 2"
proof -
  have a: "wideword (2147483648, 5)" and b: "wideword (1, 7)"
    by (simp_all add: wideword_def is_u32_def)
  have s: "shift64 (2147483648, 5) 1 = Halves (- 1073741824) 2"
    by (simp add: js_sar_def js_shl_def js_or_def)
  from halves_range [OF a b, of 1] show ?thesis using a b s by simp
qed

subsection \<open>The default wall predicate\<close>

text \<open>
  C10: for positive \<open>X\<close> and \<open>Y\<close>, the predicate \<^verbatim>\<open>Maze.isEdge(X, Y)\<close> holds exactly for
  the cells with \<open>x \<le> 0\<close> or \<open>x \<ge> X - 1\<close> or \<open>y \<le> 0\<close> or \<open>y \<ge> Y - 1\<close>: for every cell
  outside \<open>[0, X) \<times> [0, Y)\<close> and also for the border ring inside it (columns \<open>0\<close> and
  \<open>X - 1\<close>, rows \<open>0\<close> and \<open>Y - 1\<close>).
\<close>

theorem isEdge_border:
  assumes "0 < X" and "0 < Y"
  shows "(isEdge X Y x y \<longleftrightarrow> x \<le> 0 \<or> x \<ge> X - 1 \<or> y \<le> 0 \<or> y \<ge> Y - 1)
    \<and> (\<not> (0 \<le> x \<and> x < X \<and> 0 \<le> y \<and> y < Y) \<longrightarrow> isEdge X Y x y)
    \<and> (x = 0 \<or> x = X - 1 \<or> y = 0 \<or> y = Y - 1 \<longrightarrow> isEdge X Y x y)"
  by (auto simp add: isEdge_def Let_def)

theorem isEdge_border_witness:
  "(0 :: int) < 3 \<and> isEdge 3 3 0 1 \<and> isEdge 3 3 2 1 \<and> isEdge 3 3 1 2 \<and> isEdge 3 3 1 3 \<and> \<not> isEdge 3 3 1 1"
  using isEdge_border [of 3 3 0 1] isEdge_border [of 3 3 2 1] isEdge_border [of 3 3 1 2]
    isEdge_border [of 3 3 1 3] isEdge_border [of 3 3 1 1]
  by simp

subsection \<open>The unit draw\<close>

lemma fst_add64: "fst (add64 a b) = js_shr (fst a + fst b) 0"
  by (cases a, cases b) simp

lemma snd_add64: "snd (add64 a b) = js_shr (snd a + snd b) 0"
  by (cases a, cases b) simp

lemma rand32_eq: "rand32 g = (fst (fst (rand64 g)), snd (rand64 g))"
  by (simp add: rand32_def split: prod.splits)

lemma rand_eq: "rand g = (of_int (fst (rand32 g)) / 4294967295, snd (rand32 g))"
  by (simp add: rand_def max32_def split: prod.splits)

lemma rand32_range: "is_u32 (fst (rand32 g))"
  by (simp add: rand32_eq rand64_def Let_def fst_add64 is_u32_js_shr_0)

text \<open>
  C9, as stated: \<^verbatim>\<open>rand()\<close> is always strictly less than 1. The divisor is the largest
  value \<^verbatim>\<open>rand32()\<close> can take, so the quotient reaches 1: in the state
  \<open>s0 = [0, 0]\<close>, \<open>s1 = [0xfc000000, 0]\<close> the draw is \<open>0xffffffff\<close>.
\<close>

theorem rand_counterexample:
  "wideword (0, 0) \<and> wideword (4227858432, 0)
   \<and> fst (rand32 \<lparr>s0 = (0, 0), s1 = (4227858432, 0)\<rparr>) = 4294967295
   \<and> fst (rand \<lparr>s0 = (0, 0), s1 = (4227858432, 0)\<rparr>) = 1
   \<and> \<not> fst (rand \<lparr>s0 = (0, 0), s1 = (4227858432, 0)\<rparr>) < 1"
  by (simp add: wideword_def is_u32_def rand_eq rand32_eq rand64_def js_shr_def js_xor_def js_or_def js_shl_def js_sar_def)

text \<open>
  C9, amended: for every generator state, \<^verbatim>\<open>rand()\<close> returns \<^verbatim>\<open>rand32()\<close> divided by
  \<open>0xFFFFFFFF\<close>, and the result lies in the closed interval \<open>[0, 1]\<close>; it is 1 exactly
  when \<^verbatim>\<open>rand32()\<close> is \<open>0xFFFFFFFF\<close>, and strictly less than 1 otherwise.
\<close>

theorem rand_unit_interval:
  "fst (rand g) = of_int (fst (rand32 g)) / 4294967295
   \<and> 0 \<le> fst (rand g) \<and> fst (rand g) \<le> 1
   \<and> (fst (rand g) = 1 \<longleftrightarrow> fst (rand32 g) = 4294967295)
   \<and> (fst (rand g) < 1 \<longleftrightarrow> fst (rand32 g) < 4294967295)"
proof -
  from rand32_range [of g] have "0 \<le> fst (rand32 g)" and "fst (rand32 g) \<le> 4294967295"
    by (simp_all add: is_u32_def)
  then show ?thesis by (simp add: rand_eq)
qed

subsection \<open>The 64-bit hash\<close>

lemma digit_char:
  assumes "k < 10"
  shows "unat (of_nat (48 + k) :: 16 word) = 48 + k" and "is_digit (of_nat (48 + k))"
    and "(of_nat (48 + k) :: 16 word) = 48 \<longleftrightarrow> k = 0"
proof -
  have "unat (of_nat (48 + k) :: 16 word) = (48 + k) mod 2 ^ 16"
    by (simp only: unat_of_nat len_of_numeral_defs) simp
  with assms show u: "unat (of_nat (48 + k) :: 16 word) = 48 + k"
    by simp
  with assms show "is_digit (of_nat (48 + k))"
    by (simp only: is_digit_def word_le_nat_alt) simp
  show "(of_nat (48 + k) :: 16 word) = 48 \<longleftrightarrow> k = 0"
  proof
    assume "(of_nat (48 + k) :: 16 word) = 48"
    then have "unat (of_nat (48 + k) :: 16 word) = unat (48 :: 16 word)" by (simp only:)
    with u show "k = 0" by simp
  next
    assume "k = 0"
    then show "(of_nat (48 + k) :: 16 word) = 48" by simp
  qed
qed

lemma digits_nonempty: "digits n \<noteq> []"
  by (subst digits.simps) simp

lemma digits_all: "list_all is_digit (digits n)"
proof (induction n rule: digits.induct)
  case (1 n)
  show ?case
  proof (cases "n < 10")
    case True
    then show ?thesis by (subst digits.simps) (simp add: digit_char(2) del: of_nat_add)
  next
    case False
    then have "n mod 10 < 10" by simp
    with False 1 show ?thesis by (subst digits.simps) (simp add: digit_char(2) del: of_nat_add)
  qed
qed

lemma digits_value_digits: "digits_value (digits n) = n"
proof (induction n rule: digits.induct)
  case (1 n)
  show ?case
  proof (cases "n < 10")
    case True
    then show ?thesis by (subst digits.simps) (simp add: digits_value_def digit_char(1) del: of_nat_add)
  next
    case False
    have "n mod 10 < 10" by simp
    then have "unat (of_nat (48 + n mod 10) :: 16 word) = 48 + n mod 10"
      by (rule digit_char(1))
    with False 1 show ?thesis
      by (subst digits.simps) (simp add: digits_value_def del: of_nat_add)
  qed
qed

lemma digits_leading:
  "hd (digits n) = 48 \<longleftrightarrow> n = 0"
proof (induction n rule: digits.induct)
  case (1 n)
  show ?case
  proof (cases "n < 10")
    case True
    then show ?thesis by (subst digits.simps) (simp add: digit_char(3) del: of_nat_add)
  next
    case False
    with 1 have "hd (digits (n div 10)) = 48 \<longleftrightarrow> n div 10 = 0" by simp
    moreover from False have "n div 10 \<noteq> 0" and "n \<noteq> 0" by simp_all
    ultimately show ?thesis
      using False by (subst digits.simps) (simp add: digits_nonempty del: of_nat_add)
  qed
qed

lemma digits_0: "digits 0 = [48]"
  by (subst digits.simps) simp

lemma unsigned_numeral_digits: "unsigned_numeral (digits n) = Some n"
proof (cases "n = 0")
  case True
  then show ?thesis
    by (simp add: digits_0 unsigned_numeral_def is_digit_def digits_value_def)
next
  case False
  then show ?thesis
    by (simp add: unsigned_numeral_def digits_nonempty digits_all digits_leading digits_value_digits)
qed

lemma decimal_numeral_number_text: "decimal_numeral (number_text n) = Some n"
proof (cases "n < 0")
  case True
  then show ?thesis
    by (simp add: decimal_numeral_def number_text_def unsigned_numeral_digits)
next
  case False
  obtain c cs where d: "digits (nat n) = c # cs"
    using digits_nonempty [of "nat n"] by (cases "digits (nat n)") auto
  have "is_digit c" using digits_all [of "nat n"] by (simp add: d)
  then have "c \<noteq> 45" by (auto simp add: is_digit_def)
  with False show ?thesis
    using unsigned_numeral_digits [of "nat n"]
    by (simp add: decimal_numeral_def number_text_def d)
qed

lemma is_digit_char:
  assumes "is_digit c"
  shows "unat c - 48 < 10" and "c = of_nat (48 + (unat c - 48))"
proof -
  from assms have b: "48 \<le> unat c" "unat c \<le> 57"
    by (simp_all add: is_digit_def word_le_nat_alt)
  then show "unat c - 48 < 10" by simp
  from b have "48 + (unat c - 48) = unat c" by simp
  then show "c = of_nat (48 + (unat c - 48))" by (simp only: of_nat_unat ucast_id)
qed

lemma unsigned_numeral_unique:
  assumes "unsigned_numeral s = Some k"
  shows "s = digits k"
  using assms
proof (induction s arbitrary: k rule: rev_induct)
  case Nil
  then show ?case by (simp add: unsigned_numeral_def)
next
  case (snoc c ds)
  from snoc.prems have a: "list_all is_digit ds" and c: "is_digit c"
    and l: "\<not> (hd (ds @ [c]) = 48 \<and> 1 < length (ds @ [c]))"
    and k: "k = digits_value (ds @ [c])"
    by (auto simp add: unsigned_numeral_def split: if_splits)
  define d where "d = unat c - 48"
  from is_digit_char [OF c] have d: "d < 10" and cd: "c = of_nat (48 + d)"
    by (simp_all add: d_def)
  from k have kv: "k = 10 * digits_value ds + d"
    by (simp add: digits_value_def d_def)
  show ?case
  proof (cases "ds = []")
    case True
    with kv d cd show ?thesis
      by (subst digits.simps) (simp add: digits_value_def del: of_nat_add)
  next
    case False
    with l have h: "hd ds \<noteq> 48" by simp
    with False a have "unsigned_numeral ds = Some (digits_value ds)"
      by (simp add: unsigned_numeral_def)
    then have i: "ds = digits (digits_value ds)" by (rule snoc.IH)
    with h have "digits_value ds \<noteq> 0"
      using digits_leading [of "digits_value ds"] by auto
    with kv d have "\<not> k < 10" and "k div 10 = digits_value ds" and "k mod 10 = d"
      by simp_all
    with i cd show ?thesis
      by (subst digits.simps) (simp del: of_nat_add)
  qed
qed

lemma decimal_numeral_unique:
  assumes "decimal_numeral s = Some n"
  shows "s = number_text n"
proof (cases s)
  case Nil
  with assms show ?thesis by (simp add: decimal_numeral_def)
next
  case (Cons c cs)
  show ?thesis
  proof (cases "c = 45")
    case True
    with assms Cons obtain k where "unsigned_numeral cs = Some k" and "k \<noteq> 0" and "n = - int k"
      by (auto simp add: decimal_numeral_def split: option.splits if_splits)
    with True Cons show ?thesis
      using unsigned_numeral_unique [of cs k] by (simp add: number_text_def)
  next
    case False
    with assms Cons obtain k where "unsigned_numeral s = Some k" and "n = int k"
      by (auto simp add: decimal_numeral_def)
    then show ?thesis
      using unsigned_numeral_unique [of s k] by (simp add: number_text_def)
  qed
qed

lemma decimal_numeral_iff: "decimal_numeral p = Some n \<longleftrightarrow> p = number_text n"
  using decimal_numeral_unique [of p n] decimal_numeral_number_text [of n] by auto

lemma hash32_i32: "is_i32 (hash32 str)"
proof (cases str rule: rev_cases)
  case Nil
  then show ?thesis by (simp add: hash32_def js_xor_def is_i32_def)
next
  case (snoc ys y)
  then show ?thesis by (simp add: hash32_def hash32_step_def Let_def js_or_def is_i32_sint)
qed

lemma toUint32_range: "0 \<le> toUint32 n" "toUint32 n < 4294967296"
  using uint_lt2p [of "word_of_int n :: 32 word"] by (simp_all add: toUint32_def)

lemma wide_val_halves:
  "wide_val (h, l) div 4294967296 = toUint32 h" "wide_val (h, l) mod 4294967296 = toUint32 l"
  using toUint32_range [of l] by (simp_all add: wide_val_def)

lemmas run_hash = hash32_def hash32_step_def imul32_def mul32_def Let_def
  js_xor_def js_or_def js_and_def js_shl_def js_sar_def js_shr_def

lemma hash32_sample:
  "hash32 [13926, 42463] = - 5" "hash32 [45, 53, 13926, 42463] = - 791742220"
  by (simp_all add: run_hash)

lemma number_text_sample: "number_text (- 5) = [45, 53]"
  by (simp add: number_text_def digits.simps)

text \<open>
  C6, as stated: \<^verbatim>\<open>hash64\<close> returns a wide word whose low half is \<^verbatim>\<open>hash32(text)\<close> and whose
  high half is the second hash. The array returned is \<^verbatim>\<open>[nL, nH]\<close>, and the wide-integer
  layer reads element 0 as the high half; both elements are signed. For the two code
  units 13926 and 42463 the result is \<open>[-5, -791742220]\<close>: not a pair of halves in
  \<open>[0, 2^32)\<close>, and the low half of the 64-bit word is the second hash, not the first.
\<close>

theorem hash64_counterexample:
  "hash32 [13926, 42463] = - 5
   \<and> hash64 [13926, 42463] = (- 5, - 791742220)
   \<and> \<not> wideword (hash64 [13926, 42463])
   \<and> wide_val (hash64 [13926, 42463]) mod 2 ^ 32 \<noteq> toUint32 (hash32 [13926, 42463])"
  by (simp add: hash64_def hash32_sample number_text_sample wideword_def is_u32_def
      wide_val_def toUint32_def)

text \<open>
  C6, amended: for every string, \<^verbatim>\<open>hash64\<close> returns the array \<^verbatim>\<open>[nL, nH]\<close> of two signed
  32-bit integers, each in \<open>[-2^31, 2^31)\<close>, where element 0, \<^verbatim>\<open>nL\<close>, is \<^verbatim>\<open>hash32\<close> of the
  string and element 1, \<^verbatim>\<open>nH\<close>, is \<^verbatim>\<open>hash32\<close> of the string with the decimal numeral of
  \<^verbatim>\<open>nL\<close> in front (the one text that reads as \<^verbatim>\<open>nL\<close>: digits without a leading zero, after
  a minus sign when \<^verbatim>\<open>nL\<close> is negative). In the 64-bit word that the wide-integer layer
  reads from the array, \<^verbatim>\<open>hash32\<close> of the string is the high half and \<^verbatim>\<open>nH\<close> the low half,
  each modulo \<open>2^32\<close>.
\<close>

theorem hash64_halves:
  "hash64 text = (hash32 text, hash32 (number_text (hash32 text) @ text))
   \<and> (\<forall>p. decimal_numeral p = Some (hash32 text) \<longleftrightarrow> p = number_text (hash32 text))
   \<and> is_i32 (fst (hash64 text)) \<and> is_i32 (snd (hash64 text))
   \<and> wide_val (hash64 text) div 2 ^ 32 = toUint32 (hash32 text)
   \<and> wide_val (hash64 text) mod 2 ^ 32 = toUint32 (hash32 (number_text (hash32 text) @ text))"
  by (simp add: hash64_def Let_def hash32_i32 wide_val_halves decimal_numeral_iff)

theorem hash64_halves_witness:
  "hash64 [13926, 42463] = (- 5, - 791742220)
   \<and> number_text (- 5) = [45, 53]
   \<and> decimal_numeral [45, 53] = Some (- 5)
   \<and> hash32 [45, 53, 13926, 42463] = - 791742220
   \<and> wide_val (hash64 [13926, 42463]) div 2 ^ 32 = 4294967291
   \<and> wide_val (hash64 [13926, 42463]) mod 2 ^ 32 = 3503225076"
  using hash64_halves [of "[13926, 42463]"]
  by (simp add: hash64_def hash32_sample number_text_sample wide_val_def toUint32_def)

subsection \<open>Rounding to a double\<close>

lemma pow2_pos: "0 < pow2 k"
  by (simp add: pow2_def)

lemma round_half_even_nonneg: "0 \<le> q \<Longrightarrow> 0 \<le> round_half_even q"
  by (simp add: round_half_even_def Let_def)

lemma double_nonneg:
  assumes "0 \<le> q"
  shows "double False q = Infinity False \<or> (\<exists>v\<ge>0. double False q = Finite False v)"
proof (cases "q = 0")
  case True
  then show ?thesis by (simp add: double_def)
next
  case False
  define u where "u = pow2 (max (exponent q) (- 1022) - 52)"
  have "0 < u" by (simp add: u_def pow2_pos)
  with assms have "0 \<le> round_half_even (q / u)"
    by (intro round_half_even_nonneg) simp
  with \<open>0 < u\<close> have "0 \<le> of_int (round_half_even (q / u)) * u"
    by simp
  with False show ?thesis
    by (simp add: double_def Let_def u_def)
qed

lemma double_neg: "js_neg (double s q) = double (\<not> s) q"
  by (simp add: double_def Let_def)

lemma pow2_powi: "pow2 k = 2 powi k"
  by (simp add: pow2_def power_int_def inverse_eq_divide power_one_over)

lemma binade_unique:
  fixes q :: rat
  assumes "2 powi a \<le> q" and "q < 2 powi (a + 1)" and "2 powi b \<le> q" and "q < 2 powi (b + 1)"
  shows "a = b"
proof -
  have "a < b + 1"
  proof (rule ccontr)
    assume "\<not> a < b + 1"
    then have "(2::rat) powi (b + 1) \<le> 2 powi a"
      by (intro power_int_increasing) simp_all
    with assms(1,4) show False by simp
  qed
  moreover have "b < a + 1"
  proof (rule ccontr)
    assume "\<not> b < a + 1"
    then have "(2::rat) powi (a + 1) \<le> 2 powi b"
      by (intro power_int_increasing) simp_all
    with assms(2,3) show False by simp
  qed
  ultimately show ?thesis by simp
qed

lemma bitlen_rat_bounds:
  assumes "0 < n"
  shows "(2::rat) powi (bitlen n - 1) \<le> of_int n" and "of_int n + 1 \<le> (2::rat) powi bitlen n"
    and "1 \<le> bitlen n"
proof -
  from bitlen_bounds [OF assms] have lo: "2 ^ nat (bitlen n - 1) \<le> n" and hi: "n < 2 ^ nat (bitlen n)"
    by simp_all
  from assms show l: "1 \<le> bitlen n"
    using bitlen_eq_zero_iff [of n] bitlen_nonneg [of n] by linarith
  from lo have "(of_int (2 ^ nat (bitlen n - 1)) :: rat) \<le> of_int n"
    by (simp only: of_int_le_iff)
  with l show "(2::rat) powi (bitlen n - 1) \<le> of_int n"
    by (simp add: power_int_def)
  from hi have "n + 1 \<le> 2 ^ nat (bitlen n)" by simp
  then have "(of_int (n + 1) :: rat) \<le> of_int (2 ^ nat (bitlen n))"
    by (simp only: of_int_le_iff)
  with l show "of_int n + 1 \<le> (2::rat) powi bitlen n"
    by (simp add: power_int_def)
qed

lemma exponent_bounds:
  assumes "0 < q"
  shows "2 powi exponent q \<le> q \<and> q < 2 powi (exponent q + 1)"
proof (cases "1 \<le> q")
  case True
  define n where "n = \<lfloor>q\<rfloor>"
  from True have n: "0 < n" by (simp add: n_def)
  have "of_int n \<le> q" and "q < of_int n + 1"
    using floor_correct [of q] by (simp_all add: n_def)
  with bitlen_rat_bounds(1,2) [OF n] have "2 powi (bitlen n - 1) \<le> q" and "q < 2 powi bitlen n"
    by simp_all
  with True show ?thesis by (simp add: exponent_def n_def)
next
  case False
  define t where "t = 1 / q"
  define m where "m = \<lceil>t\<rceil> - 1"
  from False assms have t: "1 < t" by (simp add: t_def)
  have c: "of_int m < t" "t \<le> of_int m + 1"
    using ceiling_correct [of t] by (simp_all add: m_def)
  from t c(2) have "(0::rat) < of_int m" by simp
  then have m: "0 < m" by simp
  note b = bitlen_rat_bounds [OF m]
  have q: "q = 1 / t" by (simp add: t_def)
  from c(2) b(2) have "t \<le> 2 powi bitlen m" by simp
  with t have "1 / (2 powi bitlen m) \<le> 1 / t"
    by (intro divide_left_mono) simp_all
  then have lo: "2 powi (- bitlen m) \<le> q"
    by (simp add: q power_int_minus inverse_eq_divide)
  from c(1) b(1) have "2 powi (bitlen m - 1) < t" by simp
  moreover have "(0::rat) < 2 powi (bitlen m - 1)" by simp
  moreover from t have "0 < t" by simp
  ultimately have "1 / t < 1 / (2 powi (bitlen m - 1))"
    by (intro divide_strict_left_mono) simp_all
  then have "q < 2 powi (- (bitlen m - 1))"
    by (simp only: q power_int_minus inverse_eq_divide)
  then have hi: "q < 2 powi (- bitlen m + 1)" by simp
  from False lo hi show ?thesis by (simp add: exponent_def t_def m_def)
qed

lemma exponent_eq:
  assumes "0 < q" and "pow2 e \<le> q" and "q < pow2 (e + 1)"
  shows "exponent q = e"
  using exponent_bounds [OF assms(1)] assms(2,3)
  by (intro binade_unique [of "exponent q" q e]) (simp_all add: pow2_powi)

lemma double_eval:
  assumes "0 < q" and "pow2 e \<le> q" and "q < pow2 (e + 1)"
  shows "double s q =
     (let ulp = pow2 (max e (- 1022) - 52);
          v = of_int (round_half_even (q / ulp)) * ulp
      in if pow2 1024 \<le> v then Infinity s else Finite s v)"
  using assms(1) by (simp add: double_def exponent_eq [OF assms] Let_def)

lemma floor_rat_numeral:
  "\<lfloor>(numeral a :: rat) / numeral b\<rfloor> = numeral a div numeral b"
  "\<lfloor>(1 :: rat) / numeral b\<rfloor> = 1 div numeral b"
  using floor_divide_of_int_eq [of "numeral a" "numeral b", where ?'a = rat]
    floor_divide_of_int_eq [of 1 "numeral b", where ?'a = rat]
  by simp_all

lemma double_0: "double s 0 = Finite s 0"
  by (simp add: double_def)

lemmas double_at = double_0 double_eval [of _ "- 9"] double_eval [of _ "- 8"] double_eval [of _ "- 3"]
  double_eval [of _ 0] double_eval [of _ "- 1200"]

subsection \<open>The noise pass\<close>

lemma rand_nonneg: "0 \<le> fst (rand g)"
  using rand32_range [of g] by (simp add: rand_eq is_u32_def)

lemma draw_nonneg: "draw g k = Infinity False \<or> (\<exists>v\<ge>0. draw g k = Finite False v)"
  using double_nonneg [OF rand_nonneg] rand_nonneg
  by (simp add: draw_def to_double_def not_less [symmetric] del: not_less)

lemma js_mul_neg: "js_mul (js_neg a) b = js_neg (js_mul a b)"
  by (cases a; cases b) (auto simp add: double_neg)

lemma draw_above_negative:
  assumes "js_lt (Finite False 0) p"
  shows "js_gt (draw g k) (js_neg p)"
proof -
  from draw_nonneg [of g k] show ?thesis
  proof
    assume "draw g k = Infinity False"
    with assms show ?thesis by (cases p) (simp_all add: js_gt_def)
  next
    assume "\<exists>v\<ge>0. draw g k = Finite False v"
    then obtain v where "0 \<le> v" and "draw g k = Finite False v" by blast
    with assms show ?thesis by (cases p) (auto simp add: js_gt_def signed_def split: if_splits)
  qed
qed

lemma draw_0: "draw g 0 = to_double (fst (rand g))"
  by (simp add: draw_def)

lemma draw_Suc: "draw g (Suc k) = draw (next_state g) k"
  by (simp add: draw_def funpow_swap1)

lemma draw_add: "draw ((next_state ^^ n) g) k = draw g (n + k)"
  by (simp add: draw_def funpow_add add.commute)

lemma rng_rand_Generator: "rng_rand (Generator g) = Inr (draw g 0, Generator (next_state g))"
  by (simp add: draw_0 next_state_def split: prod.splits)

lemma loss_cell_adds:
  assumes "js_lt (Finite False 0) (js_mul rate (factor x y))"
  shows "loss_cell rate factor x y v (Generator g) =
     Inr (v \<or> js_lt (draw g 0) (js_mul rate (factor x y)), Generator (next_state g))"
  using draw_above_negative [OF assms, of g 0]
  by (simp add: loss_cell_def rng_rand_Generator js_mul_neg del: rng_rand.simps)

lemma loss_row_adds:
  assumes "\<And>i. i < length row \<Longrightarrow> js_lt (Finite False 0) (js_mul rate (factor (x + i) y))"
  shows "\<exists>row'. loss_row rate factor y x row (Generator g)
        = Inr (row', Generator ((next_state ^^ length row) g))
    \<and> length row' = length row
    \<and> (\<forall>i < length row.
          row' ! i = (row ! i \<or> js_lt (draw g i) (js_mul rate (factor (x + i) y))))"
  using assms
proof (induction row arbitrary: x g)
  case Nil
  show ?case by simp
next
  case (Cons v vs)
  have "js_lt (Finite False 0) (js_mul rate (factor x y))"
    using Cons.prems [of 0] by simp
  then have c: "loss_cell rate factor x y v (Generator g) =
     Inr (v \<or> js_lt (draw g 0) (js_mul rate (factor x y)), Generator (next_state g))"
    by (rule loss_cell_adds)
  have "\<And>i. i < length vs \<Longrightarrow> js_lt (Finite False 0) (js_mul rate (factor (Suc x + i) y))"
    using Cons.prems [of "Suc i" for i] by simp
  from Cons.IH [OF this, of "next_state g"] obtain vs' where
    r: "loss_row rate factor y (Suc x) vs (Generator (next_state g))
        = Inr (vs', Generator ((next_state ^^ length vs) (next_state g)))"
    and l: "length vs' = length vs"
    and n: "\<forall>i < length vs.
          vs' ! i = (vs ! i \<or> js_lt (draw (next_state g) i) (js_mul rate (factor (Suc x + i) y)))"
    by blast
  have "((v \<or> js_lt (draw g 0) (js_mul rate (factor x y))) # vs') ! i
      = ((v # vs) ! i \<or> js_lt (draw g i) (js_mul rate (factor (x + i) y)))"
    if "i < length (v # vs)" for i
  proof (cases i)
    case 0
    then show ?thesis by simp
  next
    case (Suc k)
    with that n show ?thesis by (simp add: draw_Suc)
  qed
  with c r l show ?case by (simp add: funpow_swap1)
qed

lemma cell_index_0: "cell_index rows 0 = 0"
  by (simp add: cell_index_def)

lemma cell_index_Suc: "cell_index (row # rows) (Suc y) = length row + cell_index rows y"
  by (simp add: cell_index_def)

lemma loss_rows_adds:
  assumes "\<And>j i. j < length rows \<Longrightarrow> i < length (rows ! j) \<Longrightarrow>
    js_lt (Finite False 0) (js_mul rate (factor i (y + j)))"
  shows "\<exists>rows'. loss_rows rate factor y rows (Generator g)
        = Inr (rows', Generator ((next_state ^^ cell_index rows (length rows)) g))
    \<and> length rows' = length rows
    \<and> (\<forall>j < length rows. length (rows' ! j) = length (rows ! j)
         \<and> (\<forall>i < length (rows ! j).
               rows' ! j ! i = (rows ! j ! i
                  \<or> js_lt (draw g (cell_index rows j + i)) (js_mul rate (factor i (y + j))))))"
  using assms
proof (induction rows arbitrary: y g)
  case Nil
  show ?case by (simp add: cell_index_0)
next
  case (Cons row rows)
  define g1 where "g1 = (next_state ^^ length row) g"
  have "\<And>i. i < length row \<Longrightarrow> js_lt (Finite False 0) (js_mul rate (factor (0 + i) y))"
    using Cons.prems [of 0] by simp
  from loss_row_adds [where row = row and rate = rate and factor = factor and x = 0 and y = y
      and g = g, OF this]
  obtain row' where
    r: "loss_row rate factor y 0 row (Generator g) = Inr (row', Generator g1)"
    and rl: "length row' = length row"
    and rn: "\<forall>i < length row. row' ! i = (row ! i \<or> js_lt (draw g i) (js_mul rate (factor i y)))"
    by (auto simp add: g1_def)
  have "\<And>j i. j < length rows \<Longrightarrow> i < length (rows ! j) \<Longrightarrow>
      js_lt (Finite False 0) (js_mul rate (factor i (Suc y + j)))"
    using Cons.prems [of "Suc j" for j] by simp
  from Cons.IH [where y = "Suc y" and g = g1, OF this] obtain rows' where
    s: "loss_rows rate factor (Suc y) rows (Generator g1)
        = Inr (rows', Generator ((next_state ^^ cell_index rows (length rows)) g1))"
    and sl: "length rows' = length rows"
    and sn: "\<forall>j < length rows. length (rows' ! j) = length (rows ! j)
         \<and> (\<forall>i < length (rows ! j).
               rows' ! j ! i = (rows ! j ! i
                  \<or> js_lt (draw g1 (cell_index rows j + i)) (js_mul rate (factor i (Suc y + j)))))"
    by blast
  have e: "(next_state ^^ cell_index rows (length rows)) g1
      = (next_state ^^ cell_index (row # rows) (length (row # rows))) g"
  proof -
    have "cell_index (row # rows) (length (row # rows)) = cell_index rows (length rows) + length row"
      by (simp add: cell_index_Suc)
    then show ?thesis by (simp add: g1_def funpow_add)
  qed
  have c: "length ((row' # rows') ! j) = length ((row # rows) ! j)
      \<and> (\<forall>i < length ((row # rows) ! j).
            (row' # rows') ! j ! i = ((row # rows) ! j ! i
               \<or> js_lt (draw g (cell_index (row # rows) j + i)) (js_mul rate (factor i (y + j)))))"
    if "j < length (row # rows)" for j
  proof (cases j)
    case 0
    with rl rn show ?thesis by (simp add: cell_index_0)
  next
    case (Suc k)
    with that sn show ?thesis
      by (simp add: cell_index_Suc g1_def draw_add add.assoc)
  qed
  from r s sl c show ?case
    unfolding e [symmetric] by simp
qed

lemmas run_loss = loss_def loss_cell_def rand_eq rand32_eq rand64_def Let_def
  js_shr_def js_xor_def js_or_def js_shl_def js_sar_def to_double_def double_at pow2_def
  round_half_even_def floor_rat_numeral js_gt_def signed_def

text \<open>
  C7, as stated: for a positive rate and a non-negative weight the pass never opens a
  closed cell. A closed cell takes the branch \<^verbatim>\<open>neg\<close>, whose result
  \<^verbatim>\<open>rand() < rate * factor(x, y)\<close> is the new value: a single closed cell with rate 1 and
  weight 1 is opened by a draw of 0.
\<close>

theorem loss_counterexample:
  "js_lt (Finite False 0) (Finite False 1) \<and> data closed1 = [[False]]
   \<and> (case loss (Finite False 1) (\<lambda>x y. Finite False 1) closed1 of
         Inl e \<Rightarrow> [] | Inr m \<Rightarrow> data m) = [[True]]"
  by (simp add: closed1_def run_loss)

text \<open>
  C7, amended: for every grid of a maze that holds a generator, every rate \<open>> 0\<close> and every
  weight function for which the product \<open>rate \<cdot> weightFn(x, y)\<close>, as the host computes it in
  double precision, is greater than 0 at every cell of the grid, the pass returns, keeps
  the shape of the grid, and only ever adds openings: a cell is open after the pass
  exactly when it was open before or its draw is below \<open>rate \<cdot> weightFn(x, y)\<close>. The draw
  of the cell \<open>(x, y)\<close> is the draw of the generator whose number is the count of cells
  before it in row order, and the generator is left after as many draws as the grid has
  cells. So an open cell is never closed, and a closed cell is opened with probability
  \<open>rate \<cdot> weightFn(x, y)\<close>.
\<close>

theorem loss_only_adds_openings:
  assumes "js_lt (Finite False 0) rate"
    and "\<And>x y. y < length (data m) \<Longrightarrow> x < length (data m ! y) \<Longrightarrow>
      js_lt (Finite False 0) (js_mul rate (factor x y))"
    and "RNG m = Generator g"
  shows "\<exists>m'. loss rate factor m = Inr m'
    \<and> length (data m') = length (data m)
    \<and> (\<forall>y < length (data m). length (data m' ! y) = length (data m ! y)
         \<and> (\<forall>x < length (data m ! y).
               data m' ! y ! x = (data m ! y ! x
                  \<or> js_lt (draw g (cell_index (data m) y + x)) (js_mul rate (factor x y)))))
    \<and> RNG m' = Generator ((next_state ^^ cell_index (data m) (length (data m))) g)"
proof -
  have "\<And>j i. j < length (data m) \<Longrightarrow> i < length (data m ! j) \<Longrightarrow>
      js_lt (Finite False 0) (js_mul rate (factor i (0 + j)))"
    using assms(2) by simp
  from loss_rows_adds [where rows = "data m" and rate = rate and factor = factor and y = 0
      and g = g, OF this]
  obtain rows' where
    r: "loss_rows rate factor 0 (data m) (Generator g)
        = Inr (rows', Generator ((next_state ^^ cell_index (data m) (length (data m))) g))"
    and l: "length rows' = length (data m)"
    and n: "\<forall>j < length (data m). length (rows' ! j) = length (data m ! j)
         \<and> (\<forall>i < length (data m ! j).
               rows' ! j ! i = (data m ! j ! i
                  \<or> js_lt (draw g (cell_index (data m) j + i)) (js_mul rate (factor i j))))"
    by auto
  from r have "loss rate factor m = Inr (m\<lparr>RNG := Generator ((next_state ^^ cell_index (data m)
      (length (data m))) g), data := rows'\<rparr>)"
    by (simp add: loss_def assms(3))
  with l n show ?thesis by simp
qed

theorem loss_only_adds_openings_witness:
  "js_lt (Finite False 0) (Finite False (1 / 8))
   \<and> js_mul (Finite False (1 / 8)) (Finite False 1) = Finite False (1 / 8)
   \<and> RNG mixed3 = Generator \<lparr>s0 = (1, 2), s1 = (3, 4)\<rparr>
   \<and> data mixed3 = [[True, False, False]]
   \<and> draw \<lparr>s0 = (1, 2), s1 = (3, 4)\<rparr> 1 = Finite False (1688862946885635 / 288230376151711744)
   \<and> draw \<lparr>s0 = (1, 2), s1 = (3, 4)\<rparr> 2 = Finite False (589377092851721 / 4503599627370496)
   \<and> (case loss (Finite False (1 / 8)) (\<lambda>x y. Finite False 1) mixed3 of
         Inl e \<Rightarrow> [] | Inr m \<Rightarrow> data m) = [[True, True, False]]"
proof -
  have r: "js_lt (Finite False 0) (Finite False (1 / 8))"
    by (simp add: signed_def)
  have p: "js_mul (Finite False (1 / 8)) (Finite False 1) = Finite False (1 / 8)"
    by (simp add: double_at pow2_def round_half_even_def Let_def floor_rat_numeral)
  have f: "\<And>x y. js_lt (Finite False 0) (js_mul (Finite False (1 / 8)) ((\<lambda>x y. Finite False 1) x y))"
    by (simp only: p r)
  have g: "RNG mixed3 = Generator \<lparr>s0 = (1, 2), s1 = (3, 4)\<rparr>"
    by (simp add: mixed3_def)
  have d: "draw \<lparr>s0 = (1, 2), s1 = (3, 4)\<rparr> 1 = Finite False (1688862946885635 / 288230376151711744)"
    "draw \<lparr>s0 = (1, 2), s1 = (3, 4)\<rparr> 2 = Finite False (589377092851721 / 4503599627370496)"
    unfolding numeral_2_eq_2 One_nat_def draw_Suc draw_0
    by (simp_all add: next_state_def run_loss)
  have e: "(case loss (Finite False (1 / 8)) (\<lambda>x y. Finite False 1) mixed3 of
         Inl e \<Rightarrow> [] | Inr m \<Rightarrow> data m) = [[True, True, False]]"
    by (simp add: mixed3_def run_loss)
  from loss_only_adds_openings [of "Finite False (1 / 8)" mixed3 "\<lambda>x y. Finite False 1", OF r f g]
    r p g d e
  show ?thesis by (simp add: mixed3_def)
qed

text \<open>
  The product has to be positive as computed: \<open>2^-600 \<cdot> 2^-600\<close> underflows to 0, the
  first test is then \<^verbatim>\<open>rand() > -0\<close>, and a draw of 0 closes an open cell although the
  rate and the weight are positive.
\<close>

lemma loss_underflow:
  "js_lt (Finite False 0) (Finite False (1 / 2 ^ 600))
   \<and> js_mul (Finite False (1 / 2 ^ 600)) (Finite False (1 / 2 ^ 600)) = Finite False 0
   \<and> (case loss (Finite False (1 / 2 ^ 600)) (\<lambda>x y. Finite False (1 / 2 ^ 600)) open1 of
         Inl e \<Rightarrow> [] | Inr m \<Rightarrow> data m) = [[False]]"
  by (simp add: open1_def run_loss)

subsection \<open>The generator of the rooms\<close>

lemma room_RNG:
  assumes "RNG m = Generator g" and "room now m d = Inr r"
  shows "RNG r = CopyMethod"
  using assms by (auto simp add: room_def Maze_def Let_def split: option.splits if_splits)

lemma map_err_all:
  assumes "map_err f xs = Inr ys" and "\<And>x y. x \<in> set xs \<Longrightarrow> f x = Inr y \<Longrightarrow> P y"
  shows "\<forall>y \<in> set ys. P y"
  using assms
proof (induction xs arbitrary: ys)
  case Nil
  then show ?case by simp
next
  case (Cons x xs)
  from Cons.prems(1) obtain y ys' where
    y: "f x = Inr y" and ys': "map_err f xs = Inr ys'" and ys: "ys = y # ys'"
    by (auto split: sum.splits)
  from y have "P y" by (intro Cons.prems(2) [of x]) simp_all
  moreover from ys' have "\<forall>y \<in> set ys'. P y"
    by (rule Cons.IH) (auto intro: Cons.prems(2))
  ultimately show ?case by (simp add: ys)
qed

text \<open>
  C8 says that every room returned by \<^verbatim>\<open>split\<close> owns a copy of the parent's generator,
  with the parent's state. \<^verbatim>\<open>split\<close> passes \<^verbatim>\<open>this.RNG.copy\<close>, the method itself and not
  the result of calling it, to the constructor: whenever the parent holds a generator
  and \<^verbatim>\<open>split\<close> returns, the field \<^verbatim>\<open>RNG\<close> of every room is that one function object,
  which has no state and no \<^verbatim>\<open>rand\<close>.
\<close>

theorem split_rooms_hold_copy_method:
  assumes "RNG m = Generator g" and "split now divX divY m = Inr rooms"
  shows "\<forall>band \<in> set rooms. \<forall>r \<in> set band.
    RNG r = CopyMethod \<and> RNG r \<noteq> Generator (copy g) \<and> rng_rand (RNG r) = Inl TypeError"
proof -
  from assms(2) obtain bands where
    r: "map_err (\<lambda>rect. case cut divX (mX m) (case rect of None \<Rightarrow> [] | Some rows \<Rightarrow> rows) of
                 Inl e \<Rightarrow> Inl e | Inr pieces \<Rightarrow> map_err (room now m) pieces) (map head bands) = Inr rooms"
    by (auto simp add: split_def split: sum.splits)
  show ?thesis
  proof (rule map_err_all [OF r])
    fix rect band
    assume "(case cut divX (mX m) (case rect of None \<Rightarrow> [] | Some rows \<Rightarrow> rows) of
                 Inl e \<Rightarrow> Inl e | Inr pieces \<Rightarrow> map_err (room now m) pieces) = Inr band"
    then obtain pieces where p: "map_err (room now m) pieces = Inr band"
      by (auto split: sum.splits)
    show "\<forall>r \<in> set band.
      RNG r = CopyMethod \<and> RNG r \<noteq> Generator (copy g) \<and> rng_rand (RNG r) = Inl TypeError"
    proof (rule map_err_all [OF p])
      fix d r
      assume "room now m d = Inr r"
      with assms(1) have "RNG r = CopyMethod" by (rule room_RNG)
      then show "RNG r = CopyMethod \<and> RNG r \<noteq> Generator (copy g)
          \<and> rng_rand (RNG r) = Inl TypeError"
        by simp
    qed
  qed
qed

lemma split_grid2:
  "split now 1 1 grid2 = Inr
     [[\<lparr>mX = 1, mY = 1, RNG = CopyMethod, isWall = isEdge 1 1, data = [[True]]\<rparr>,
       \<lparr>mX = 1, mY = 1, RNG = CopyMethod, isWall = isEdge 1 1, data = [[False]]\<rparr>],
      [\<lparr>mX = 1, mY = 1, RNG = CopyMethod, isWall = isEdge 1 1, data = [[False]]\<rparr>,
       \<lparr>mX = 1, mY = 1, RNG = CopyMethod, isWall = isEdge 1 1, data = [[True]]\<rparr>]]"
  by (simp add: grid2_def split_def cut_def cuts_def range_div_def slice_def head_def room_def
      Maze_def Let_def upt_rec)

theorem split_rooms_hold_copy_method_witness:
  "RNG grid2 = Generator \<lparr>s0 = (1, 2), s1 = (3, 4)\<rparr>
   \<and> (case split [] 1 1 grid2 of Inl e \<Rightarrow> [] | Inr rooms \<Rightarrow> map (map RNG) rooms)
       = [[CopyMethod, CopyMethod], [CopyMethod, CopyMethod]]"
proof -
  have g: "RNG grid2 = Generator \<lparr>s0 = (1, 2), s1 = (3, 4)\<rparr>"
    by (simp add: grid2_def)
  have e: "(case split [] 1 1 grid2 of Inl e \<Rightarrow> [] | Inr rooms \<Rightarrow> map (map RNG) rooms)
      = [[CopyMethod, CopyMethod], [CopyMethod, CopyMethod]]"
    unfolding split_grid2 by simp
  from split_rooms_hold_copy_method [OF g split_grid2] g e show ?thesis
    by simp
qed

subsection \<open>The generator step\<close>

lemma word64_cat:
  "word64 (h, l) = word_cat (word_of_int h :: 32 word) (word_of_int l :: 32 word)"
  by (simp add: word64_def wide_val_def toUint32_def word_cat_eq push_bit_eq_mult)

lemma cat_xor:
  "word_cat (a XOR b) (c XOR d) = (word_cat a c :: 64 word) XOR word_cat (b :: 32 word) (d :: 32 word)"
  by (rule bit_word_eqI) (auto simp add: bit_simps)

lemma word64_xor64: "word64 (xor64 a b) = word64 a XOR word64 b"
  by (cases a, cases b) (simp add: word64_cat js_xor_def cat_xor)

lemma cat_shl23:
  assumes "\<not> bit l 31"
  shows "word_cat (push_bit 23 h OR signed_drop_bit 9 l) (push_bit 23 l)
    = push_bit 23 (word_cat (h :: 32 word) (l :: 32 word) :: 64 word)"
  using assms by (intro bit_word_eqI) (auto simp add: bit_simps)

lemma cat_shr17:
  assumes "\<not> bit h 31" and "\<not> bit l 31"
  shows "word_cat (signed_drop_bit 17 h) (push_bit 15 h OR signed_drop_bit 17 l)
    = drop_bit 17 (word_cat (h :: 32 word) (l :: 32 word) :: 64 word)"
  using assms by (intro bit_word_eqI) (auto simp add: bit_simps)

lemma cat_shr26:
  assumes "\<not> bit h 31" and "\<not> bit l 31"
  shows "word_cat (signed_drop_bit 26 h) (push_bit 6 h OR signed_drop_bit 26 l)
    = drop_bit 26 (word_cat (h :: 32 word) (l :: 32 word) :: 64 word)"
  using assms by (intro bit_word_eqI) (auto simp add: bit_simps)

lemma shift64_left_23:
  assumes "top_clear (snd a)"
  shows "word64 (halves (shift64 a (- 23))) = push_bit 23 (word64 a)"
  using assms
  by (cases a) (simp add: word64_cat js_or_def js_shl_def js_sar_def top_clear_def cat_shl23)

lemma shift64_right_17:
  assumes "top_clear (fst a)" and "top_clear (snd a)"
  shows "word64 (halves (shift64 a 17)) = drop_bit 17 (word64 a)"
  using assms
  by (cases a) (simp add: word64_cat js_or_def js_shl_def js_sar_def top_clear_def cat_shr17)

lemma shift64_right_26:
  assumes "top_clear (fst a)" and "top_clear (snd a)"
  shows "word64 (halves (shift64 a 26)) = drop_bit 26 (word64 a)"
  using assms
  by (cases a) (simp add: word64_cat js_or_def js_shl_def js_sar_def top_clear_def cat_shr26)

lemma cat_int: "(word_cat h l :: 64 word) = word_of_int (uint (h :: 32 word) * 2 ^ 32 + uint (l :: 32 word))"
  by (simp add: word_cat_eq push_bit_eq_mult)


lemma cat_add:
  assumes "uint l + uint l' < 2 ^ 32"
  shows "word_cat (h + h') (l + l') = (word_cat h l :: 64 word) + word_cat (h' :: 32 word) (l' :: 32 word)"
proof -
  from assms have l: "uint (l + l') = uint l + uint l'"
    using uint_add_lem [of l l'] by simp
  have h: "uint (h + h') = (uint h + uint h') mod 2 ^ 32"
    by (simp add: uint_word_ariths)
  have "(uint h + uint h') mod 2 ^ 32 * 2 ^ 32 = ((uint h + uint h') * 2 ^ 32) mod (2 ^ 32 * 2 ^ 32)"
    by (simp only: mod_mult_mult2)
  then have m: "(uint h + uint h') mod 2 ^ 32 * 2 ^ 32 = ((uint h + uint h') * 2 ^ 32) mod 2 ^ 64"
    by simp
  have e: "(word_of_int (a mod 2 ^ 64) :: 64 word) = word_of_int a" for a :: int
    using wi_bintr [of 64 a, where ?'a = 64] by (simp add: take_bit_eq_mod)
  have c: "(word_cat (h + h') (l + l') :: 64 word)
      = word_of_int ((uint h + uint h') mod 2 ^ 32 * 2 ^ 32 + (uint l + uint l'))"
    by (simp only: cat_int l h)
  have "(word_of_int ((uint h + uint h') mod 2 ^ 32 * 2 ^ 32 + (uint l + uint l')) :: 64 word)
      = word_of_int ((uint h + uint h') mod 2 ^ 32 * 2 ^ 32) + word_of_int (uint l + uint l')"
    by (simp only: of_int_add)
  also have "\<dots> = word_of_int ((uint h + uint h') * 2 ^ 32) + word_of_int (uint l + uint l')"
    by (simp only: m e)
  also have "\<dots> = word_of_int (uint h * 2 ^ 32 + uint l) + word_of_int (uint h' * 2 ^ 32 + uint l')"
    by (simp only: of_int_add [symmetric] algebra_simps)
  finally show ?thesis
    by (simp only: cat_int l h)
qed

lemma word64_add64:
  assumes "toUint32 (snd a) + toUint32 (snd b) < 2 ^ 32"
  shows "word64 (add64 a b) = word64 a + word64 b"
proof -
  obtain aH aL bH bL where a: "a = (aH, aL)" and b: "b = (bH, bL)"
    by (cases a, cases b) auto
  from assms have "uint (word_of_int aL :: 32 word) + uint (word_of_int bL :: 32 word) < 2 ^ 32"
    by (simp add: a b toUint32_def)
  then have "word_cat (word_of_int aH + word_of_int bH :: 32 word) (word_of_int aL + word_of_int bL :: 32 word)
      = (word_cat (word_of_int aH :: 32 word) (word_of_int aL :: 32 word) :: 64 word)
        + word_cat (word_of_int bH :: 32 word) (word_of_int bL :: 32 word)"
    by (rule cat_add)
  then show ?thesis
    by (simp add: a b word64_cat js_shr_def)
qed

text \<open>On a half in \<open>[0, 2^32)\<close>, bit 31 is clear exactly below \<open>2^31\<close>.\<close>

lemma top_clear_u32:
  assumes "is_u32 n"
  shows "top_clear n \<longleftrightarrow> n < 2 ^ 31"
proof -
  from assms have r: "0 \<le> n" "n < 4294967296" by (simp_all add: is_u32_def)
  have "bit (word_of_int n :: 32 word) 31 \<longleftrightarrow> bit n 31"
    by (simp add: bit_word_of_int_iff)
  also have "\<dots> \<longleftrightarrow> odd (n div 2147483648)"
    by (simp add: bit_iff_odd)
  finally have "bit (word_of_int n :: 32 word) 31 \<longleftrightarrow> odd (n div 2147483648)" .
  moreover have "odd (n div 2147483648) \<longleftrightarrow> 2147483648 \<le> n"
  proof (cases "n < 2147483648")
    case True
    with r show ?thesis by simp
  next
    case False
    with r have "n div 2147483648 = 1" by simp
    with False show ?thesis by simp
  qed
  ultimately show ?thesis by (simp add: top_clear_def not_le)
qed

text \<open>
  C2, as stated: one call performs \<open>x ^= x >> 23\<close> and
  \<open>newS1 = x ^ s1 ^ (x << 17) ^ (s1 << 26)\<close>. \<^verbatim>\<open>rand64\<close> shifts the other way:
  from \<open>s0 = [0, 1]\<close>, \<open>s1 = [0, 0]\<close> it reaches \<open>s1 = [0, 2^23 + 65]\<close>, where the
  step as stated gives \<open>2^17 + 1\<close>.
\<close>

theorem rand64_counterexample:
  "wideword (0, 1) \<and> wideword (0, 0)
   \<and> rand64 \<lparr>s0 = (0, 1), s1 = (0, 0)\<rparr> = ((0, 8388673), \<lparr>s0 = (0, 0), s1 = (0, 8388673)\<rparr>)
   \<and> spec_next (word64 (0, 1), word64 (0, 0)) = ((0, 131073), 131073)
   \<and> word64 (0, 8388673) \<noteq> 131073"
  by (simp add: wideword_def is_u32_def rand64_def spec_next_def Let_def word64_def wide_val_def
      toUint32_def js_shr_def js_xor_def js_or_def js_shl_def js_sar_def)

text \<open>
  C2, amended: for every generator state, one call to \<^verbatim>\<open>rand64\<close> computes
  \<open>x = xor64(s0, shift64(s0, -23))\<close> and
  \<open>n = xor64(xor64(x, s1), xor64(shift64(x, 17), shift64(s1, 26)))\<close>, sets the state to
  \<open>(s1, n)\<close> and returns \<open>add64(n, s1)\<close> with the \<open>s1\<close> from before the update. Where
  bit 31 is clear in the low half of \<open>s0\<close>, in both halves of \<open>x\<close> and in both halves of
  \<open>s1\<close>, the new state is that of the 64-bit step \<open>x = s0 ^ (s0 << 23)\<close>,
  \<open>newS1 = x ^ s1 ^ (x >> 17) ^ (s1 >> 26)\<close>, \<open>newS0 = s1\<close>; where moreover the low
  halves of \<open>n\<close> and \<open>s1\<close> add up to less than \<open>2^32\<close>, the output is the 64-bit sum
  \<open>newS1 + s1\<close>.
\<close>

theorem rand64_step:
  "let x = xor64 (s0 g) (halves (shift64 (s0 g) (- 23)));
       n = xor64 (xor64 x (s1 g)) (xor64 (halves (shift64 x 17)) (halves (shift64 (s1 g) 26)))
   in rand64 g = (add64 n (s1 g), \<lparr>s0 = s1 g, s1 = n\<rparr>)
      \<and> (top_clear (snd (s0 g)) \<and> top_clear (fst x) \<and> top_clear (snd x)
           \<and> top_clear (fst (s1 g)) \<and> top_clear (snd (s1 g)) \<longrightarrow>
          (word64 (s1 g), word64 n) = fst (xorshift128plus (word64 (s0 g), word64 (s1 g)))
          \<and> (toUint32 (snd n) + toUint32 (snd (s1 g)) < 2 ^ 32 \<longrightarrow>
               word64 (add64 n (s1 g)) = snd (xorshift128plus (word64 (s0 g), word64 (s1 g)))))"
  by (simp add: Let_def rand64_def xorshift128plus_def word64_xor64 shift64_left_23
      shift64_right_17 shift64_right_26 word64_add64 xor.assoc del: shift64.simps)

theorem rand64_step_witness:
  "top_clear 448585216 \<and> top_clear 775489559 \<and> top_clear 267242409 \<and> top_clear 124076833
   \<and> toUint32 1654716990 + toUint32 124076833 < 2 ^ 32
   \<and> rand64 \<lparr>s0 = (305419896, 448585216), s1 = (267242409, 124076833)\<rparr>
       = ((834838602, 1778793823),
          \<lparr>s0 = (267242409, 124076833), s1 = (567596193, 1654716990)\<rparr>)
   \<and> xorshift128plus (word64 (305419896, 448585216), word64 (267242409, 124076833))
       = ((1147797406883332897, 2437807087923821118), 3585604494807154015)
   \<and> word64 (567596193, 1654716990) = 2437807087923821118
   \<and> word64 (834838602, 1778793823) = 3585604494807154015"
  using rand64_step [of "\<lparr>s0 = (305419896, 448585216), s1 = (267242409, 124076833)\<rparr>"]
  by (simp add: top_clear_def toUint32_def rand64_def Let_def xorshift128plus_def
      word64_def wide_val_def js_shr_def js_xor_def js_or_def js_shl_def js_sar_def)

end
